theory Spec2Isabelle
  imports Complex_Main
begin

section \<open>Python values, errors and time\<close>

text \<open>
  The cache API of \<^verbatim>\<open>gae_datastorecache/models.py\<close> is dynamically typed: a key may
  be a string or a tuple, a time may be an int, a long or a float. The values that reach
  the functions are modelled by one datatype. \<open>PStr\<close> stands for both \<^verbatim>\<open>str\<close> and
  \<^verbatim>\<open>unicode\<close> (the source treats them alike), \<open>PInt\<close> for \<^verbatim>\<open>int\<close> and \<^verbatim>\<open>long\<close>,
  \<open>PFloat\<close> for a finite \<^verbatim>\<open>float\<close> read as a real number. \<^verbatim>\<open>bool\<close> is a subclass
  of \<^verbatim>\<open>int\<close> in Python, so \<open>PBool\<close> passes every \<^verbatim>\<open>isinstance(x, int)\<close> test.
\<close>

datatype pyval =
    PNone
  | PBool bool
  | PInt int
  | PFloat real
  | PStr string
  | PTuple "pyval list"
  | PList "pyval list"

text \<open>
  The exceptions that leave the API: \<^verbatim>\<open>TypeError\<close> and \<^verbatim>\<open>ValueError\<close> with the message
  of the source, and \<open>DatastoreError\<close> for whatever a datastore call raises.
\<close>

datatype error = TypeError string | ValueError string | DatastoreError

text \<open>
  A \<^verbatim>\<open>datetime.datetime\<close> is a point of the time line, in seconds since the Unix epoch;
  \<^verbatim>\<open>datetime.fromtimestamp\<close> is the identity on it and adding a \<^verbatim>\<open>timedelta\<close> is
  addition. The microsecond rounding and the year range of \<^verbatim>\<open>datetime\<close> are not part
  of the model. The clock is a parameter \<open>now\<close>: one call of the API reads one time.
\<close>

type_synonym datetime = real

text \<open>\<^verbatim>\<open>datetime.datetime(year=datetime.MAXYEAR, month=12, day=31)\<close>: 9999-12-31 00:00:00.\<close>

definition datetime_max_day :: datetime where
  "datetime_max_day = 253402214400"

section \<open>Key and time normalisation\<close>

definition key_type_message :: string where
  "key_type_message = ''Key must be a string or a tuple with the key as second item''"

definition time_type_message :: string where
  "time_type_message =
     ''Time must either be a relative number of seconds from current time (up to 1 month), or an absolute Unix epoch time''"

text \<open>
  \<^verbatim>\<open>_parse_key\<close>: a tuple of at least two items is replaced by its second item (once, not
  recursively); the result must then pass \<^verbatim>\<open>isinstance(key, (str, unicode, ))\<close>.
\<close>

definition parse_key :: "pyval \<Rightarrow> error + string" where
  "parse_key key =
     (let key1 = (case key of
                    PTuple xs \<Rightarrow> if length xs \<ge> 2 then xs ! 1 else key
                  | _ \<Rightarrow> key)
      in case key1 of
           PStr s \<Rightarrow> Inr s
         | _ \<Rightarrow> Inl (TypeError key_type_message))"

text \<open>
  \<^verbatim>\<open>isinstance(time, (int, long, float))\<close> and the number the comparisons of
  \<^verbatim>\<open>_parse_time\<close> then see (\<^verbatim>\<open>True\<close> is 1 and \<^verbatim>\<open>False\<close> is 0).
\<close>

fun number_of :: "pyval \<Rightarrow> real option" where
  "number_of (PBool b) = Some (if b then 1 else 0)"
| "number_of (PInt i) = Some (of_int i)"
| "number_of (PFloat r) = Some r"
| "number_of v = None"

text \<open>\<^verbatim>\<open>_parse_time\<close>, with the clock reading of \<^verbatim>\<open>datetime.datetime.now()\<close> as \<open>now\<close>.\<close>

definition parse_time :: "datetime \<Rightarrow> pyval \<Rightarrow> error + datetime" where
  "parse_time now time =
     (case number_of time of
        None \<Rightarrow> Inl (TypeError time_type_message)
      | Some t \<Rightarrow>
          Inr (if t = 0 then datetime_max_day
               else if t \<le> 2678400 then now + t
               else t))"

text \<open>
  The collaborators from the Python library: \<^verbatim>\<open>hashlib.sha256(key).hexdigest()\<close>,
  \<^verbatim>\<open>pickle.dumps(value, 1)\<close> and \<^verbatim>\<open>pickle.loads\<close>. They are parameters of the model.
\<close>

record env =
  hexdigest :: "string \<Rightarrow> string"
  dumps :: "pyval \<Rightarrow> string"
  loads :: "string \<Rightarrow> pyval"

text \<open>\<^verbatim>\<open>namespace or ''\<close>, for a namespace that is \<^verbatim>\<open>None\<close> or a string.\<close>

definition namespace_or_empty :: "string option \<Rightarrow> string" where
  "namespace_or_empty namespace = (case namespace of None \<Rightarrow> [] | Some s \<Rightarrow> s)"

text \<open>\<^verbatim>\<open>_get_key_name\<close>\<close>

definition get_key_name :: "env \<Rightarrow> pyval \<Rightarrow> string option \<Rightarrow> error + string" where
  "get_key_name E key namespace =
     (case parse_key key of
        Inl e \<Rightarrow> Inl e
      | Inr k \<Rightarrow>
          (let key_name = namespace_or_empty namespace @ k
           in if length key_name > 250
              then Inr (namespace_or_empty namespace @ hexdigest E k)
              else Inr key_name))"

section \<open>The datastore\<close>

text \<open>
  A stored \<^verbatim>\<open>DatastoreCacheItem\<close>. \<open>item_id\<close> is the entity's datastore key: \<open>None\<close>
  for an instance that was never put, as \<^verbatim>\<open>DatastoreCacheItem(cache_key=key_name)\<close> is.
\<close>

record item =
  item_id :: "nat option"
  cache_key :: string
  pickled_value :: string
  expire_at :: datetime

text \<open>
  The datastore: its entities in the order queries return them, the next key it
  allocates, and whether its calls raise. The three flags are the calls the tests of the
  repository replace by a function that raises: \<^verbatim>\<open>Item.put\<close>, \<^verbatim>\<open>Item.delete\<close> and
  \<^verbatim>\<open>db.delete\<close>. Nothing in the datastore keeps two entities from having the same
  \<open>cache_key\<close>.
\<close>

record datastore =
  entities :: "item list"
  next_id :: nat
  put_raises :: bool
  delete_raises :: bool
  db_delete_raises :: bool

text \<open>\<^verbatim>\<open>DatastoreCacheItem.all().filter('cache_key =', key_name).get()\<close>\<close>

definition query_get :: "string \<Rightarrow> datastore \<Rightarrow> item option" where
  "query_get key_name st = find (\<lambda>e. cache_key e = key_name) (entities st)"

text \<open>\<^verbatim>\<open>DatastoreCacheItem.all().fetch(n)\<close>\<close>

definition fetch :: "nat \<Rightarrow> datastore \<Rightarrow> item list" where
  "fetch n st = take n (entities st)"

text \<open>
  \<^verbatim>\<open>item.delete()\<close>: removes the entity that has the item's key. The source calls it
  only on an item that a query returned.
\<close>

definition item_delete :: "item \<Rightarrow> datastore \<Rightarrow> error + datastore" where
  "item_delete it st =
     (if delete_raises st then Inl DatastoreError
      else Inr (st\<lparr>entities := filter (\<lambda>e. item_id e \<noteq> item_id it) (entities st)\<rparr>))"

text \<open>
  \<^verbatim>\<open>item.put()\<close>: an item without a key becomes a new entity under a fresh key; an item
  with a key overwrites the entity of that key (and is stored again if that entity is gone).
\<close>

definition item_put :: "item \<Rightarrow> datastore \<Rightarrow> error + datastore" where
  "item_put it st =
     (if put_raises st then Inl DatastoreError
      else case item_id it of
             None \<Rightarrow>
               Inr (st\<lparr>entities := entities st @ [it\<lparr>item_id := Some (next_id st)\<rparr>],
                       next_id := Suc (next_id st)\<rparr>)
           | Some i \<Rightarrow>
               Inr (st\<lparr>entities :=
                        (if Some i \<in> set (map item_id (entities st))
                         then map (\<lambda>e. if item_id e = Some i then it else e) (entities st)
                         else entities st @ [it])\<rparr>))"

text \<open>\<^verbatim>\<open>db.delete(items)\<close>: removes the entities that have the keys of the items.\<close>

definition db_delete :: "item list \<Rightarrow> datastore \<Rightarrow> error + datastore" where
  "db_delete its st =
     (if db_delete_raises st then Inl DatastoreError
      else Inr (st\<lparr>entities :=
                   filter (\<lambda>e. item_id e \<notin> set (map item_id its)) (entities st)\<rparr>))"

section \<open>The cache API\<close>

text \<open>
  Every function takes the collaborators \<open>E\<close>, the clock reading \<open>now\<close>, the arguments
  of the Python method in their order, and the datastore; it returns the exception raised,
  or the method's result with the datastore it leaves. What the datastore holds after an
  exception is not part of the result. \<^verbatim>\<open>pickle.dumps\<close> and \<^verbatim>\<open>pickle.loads\<close> are taken to
  return.
\<close>

text \<open>\<^verbatim>\<open>_get_item\<close>. The \<^verbatim>\<open>item.delete()\<close> of an expired item is not inside a \<^verbatim>\<open>try\<close>.\<close>

definition get_item ::
  "env \<Rightarrow> datetime \<Rightarrow> pyval \<Rightarrow> string option \<Rightarrow> bool \<Rightarrow> datastore
     \<Rightarrow> error + (item option \<times> datastore)" where
  "get_item E now key namespace delete_expired st =
     (case get_key_name E key namespace of
        Inl e \<Rightarrow> Inl e
      | Inr key_name \<Rightarrow>
          (case query_get key_name st of
             None \<Rightarrow> Inr (None, st)
           | Some it \<Rightarrow>
               if expire_at it \<ge> now then Inr (Some it, st)
               else if delete_expired then
                 (case item_delete it st of
                    Inl e \<Rightarrow> Inl e
                  | Inr st1 \<Rightarrow> Inr (None, st1))
               else Inr (None, st)))"

text \<open>
  The instance \<^verbatim>\<open>DatastoreCacheItem(cache_key=key_name)\<close>; \<^verbatim>\<open>set\<close> assigns its other two
  properties before it is put, so their initial values are never stored.
\<close>

definition new_item :: "string \<Rightarrow> item" where
  "new_item key_name =
     \<lparr>item_id = None, cache_key = key_name, pickled_value = [], expire_at = 0\<rparr>"

text \<open>\<^verbatim>\<open>set\<close> (the name \<open>set\<close> is taken in HOL).\<close>

definition set_cache ::
  "env \<Rightarrow> datetime \<Rightarrow> pyval \<Rightarrow> pyval \<Rightarrow> pyval \<Rightarrow> int \<Rightarrow> string option \<Rightarrow> datastore
     \<Rightarrow> error + (bool \<times> datastore)" where
  "set_cache E now key val time min_compress_len namespace st =
     (case get_key_name E key namespace of
        Inl e \<Rightarrow> Inl e
      | Inr key_name \<Rightarrow>
     (case parse_time now time of
        Inl e \<Rightarrow> Inl e
      | Inr t \<Rightarrow>
     (case get_item E now key namespace True st of
        Inl e \<Rightarrow> Inl e
      | Inr (old_valid_item, st1) \<Rightarrow>
          (let it0 = (case old_valid_item of Some old \<Rightarrow> old | None \<Rightarrow> new_item key_name);
               it1 = it0\<lparr>expire_at := t\<rparr>;
               it2 = it1\<lparr>pickled_value := dumps E val\<rparr>
           in case item_put it2 st1 of
                Inl e \<Rightarrow> Inr (False, st1)
              | Inr st2 \<Rightarrow> Inr (True, st2)))))"

text \<open>\<^verbatim>\<open>get\<close>; a miss is Python's \<^verbatim>\<open>None\<close>.\<close>

definition get ::
  "env \<Rightarrow> datetime \<Rightarrow> pyval \<Rightarrow> string option \<Rightarrow> bool \<Rightarrow> datastore
     \<Rightarrow> error + (pyval \<times> datastore)" where
  "get E now key namespace delete_expired st =
     (case get_item E now key namespace delete_expired st of
        Inl e \<Rightarrow> Inl e
      | Inr (Some it, st1) \<Rightarrow> Inr (loads E (pickled_value it), st1)
      | Inr (None, st1) \<Rightarrow> Inr (PNone, st1))"

text \<open>\<^verbatim>\<open>delete\<close>; the lookup uses the default \<^verbatim>\<open>delete_expired=True\<close>.\<close>

definition delete ::
  "env \<Rightarrow> datetime \<Rightarrow> pyval \<Rightarrow> int \<Rightarrow> string option \<Rightarrow> datastore
     \<Rightarrow> error + (int \<times> datastore)" where
  "delete E now key seconds namespace st =
     (case get_item E now key namespace True st of
        Inl e \<Rightarrow> Inl e
      | Inr (Some it, st1) \<Rightarrow>
          (case item_delete it st1 of
             Inl e \<Rightarrow> Inr (0, st1)
           | Inr st2 \<Rightarrow> Inr (2, st2))
      | Inr (None, st1) \<Rightarrow> Inr (1, st1))"

text \<open>\<^verbatim>\<open>add\<close>\<close>

definition add ::
  "env \<Rightarrow> datetime \<Rightarrow> pyval \<Rightarrow> pyval \<Rightarrow> pyval \<Rightarrow> int \<Rightarrow> string option \<Rightarrow> datastore
     \<Rightarrow> error + (bool \<times> datastore)" where
  "add E now key val time min_compress_len namespace st =
     (case get_item E now key namespace True st of
        Inl e \<Rightarrow> Inl e
      | Inr (None, st1) \<Rightarrow> set_cache E now key val time min_compress_len namespace st1
      | Inr (Some it, st1) \<Rightarrow> Inr (False, st1))"

text \<open>\<^verbatim>\<open>replace\<close>\<close>

definition replace ::
  "env \<Rightarrow> datetime \<Rightarrow> pyval \<Rightarrow> pyval \<Rightarrow> pyval \<Rightarrow> int \<Rightarrow> string option \<Rightarrow> datastore
     \<Rightarrow> error + (bool \<times> datastore)" where
  "replace E now key val time min_compress_len namespace st =
     (case get_item E now key namespace True st of
        Inl e \<Rightarrow> Inl e
      | Inr (Some it, st1) \<Rightarrow> set_cache E now key val time min_compress_len namespace st1
      | Inr (None, st1) \<Rightarrow> Inr (False, st1))"

definition max_items_message :: string where
  "max_items_message = ''Parameter max_items must be between 0 and 1000''"

text \<open>\<^verbatim>\<open>flush_all\<close>; \<open>max_items\<close> is an integer.\<close>

definition flush_all :: "int \<Rightarrow> datastore \<Rightarrow> error + (bool \<times> datastore)" where
  "flush_all max_items st =
     (if max_items < 1 \<or> max_items > 1000 then Inl (ValueError max_items_message)
      else case db_delete (fetch (nat max_items) st) st of
             Inl e \<Rightarrow> Inr (False, st)
           | Inr st1 \<Rightarrow> if fetch 1 st1 \<noteq> [] then Inr (False, st1) else Inr (True, st1))"

section \<open>Well-formed datastores and worked examples\<close>

text \<open>
  What the datastore itself guarantees (every entity has a key, keys are not shared and
  were allocated before \<open>next_id\<close>) and what the API keeps by looking a key up before it
  writes: at most one entity for each \<open>cache_key\<close>.
\<close>

definition key_below :: "nat \<Rightarrow> item \<Rightarrow> bool" where
  "key_below n e = (case item_id e of None \<Rightarrow> False | Some i \<Rightarrow> i < n)"

definition wf_store :: "datastore \<Rightarrow> bool" where
  "wf_store st =
     (distinct (map cache_key (entities st))
      \<and> distinct (map item_id (entities st))
      \<and> list_all (key_below (next_id st)) (entities st))"

text \<open>
  Collaborators for the worked examples: a digest of 64 hexadecimal characters, and a
  serialiser of strings that \<open>loads\<close> inverts.
\<close>

definition example_env :: env where
  "example_env =
     \<lparr>hexdigest = (\<lambda>k. replicate 64 (CHR ''0'')),
      dumps = (\<lambda>v. case v of PStr s \<Rightarrow> s | _ \<Rightarrow> []),
      loads = PStr\<rparr>"

definition empty_store :: datastore where
  "empty_store =
     \<lparr>entities = [], next_id = 0, put_raises = False, delete_raises = False,
      db_delete_raises = False\<rparr>"

text \<open>
  A datastore with a live entry under \<^verbatim>\<open>prefixmykey\<close> and an entry under \<^verbatim>\<open>old\<close> that
  expired at 946706400 (the test's \<^verbatim>\<open>millenium_unixtime\<close>); the examples read the clock
  at 1500000000.
\<close>

definition live_item :: item where
  "live_item =
     \<lparr>item_id = Some 0, cache_key = ''prefixmykey'', pickled_value = ''v0'',
      expire_at = datetime_max_day\<rparr>"

definition expired_item :: item where
  "expired_item =
     \<lparr>item_id = Some 1, cache_key = ''old'', pickled_value = ''v1'',
      expire_at = 946706400\<rparr>"

definition example_store :: datastore where
  "example_store =
     \<lparr>entities = [live_item, expired_item], next_id = 2, put_raises = False,
      delete_raises = False, db_delete_raises = False\<rparr>"

text \<open>
  The value of the repository's tests, a byte string with UTF-8 encoded umlauts, and the
  datastore that \<^verbatim>\<open>set\<close> leaves when it stores that value in the empty datastore
  for one second at clock reading 1500000000.
\<close>

definition umlaut_value :: pyval where
  "umlaut_value = PStr (''german characters like '' @ [CHR 0xC3, CHR 0xA4, CHR 0xC3, CHR 0x9F])"

definition stored_umlaut :: datastore where
  "stored_umlaut =
     \<lparr>entities =
        [\<lparr>item_id = Some 0, cache_key = ''prefixmykey'',
          pickled_value = ''german characters like '' @ [CHR 0xC3, CHR 0xA4, CHR 0xC3, CHR 0x9F],
          expire_at = 1500000001\<rparr>],
      next_id = 1, put_raises = False, delete_raises = False, db_delete_raises = False\<rparr>"

section \<open>Key parsing\<close>

text \<open>
  Claim C4, as the code has it. \<^verbatim>\<open>_parse_key\<close> returns a string \<open>s\<close> exactly for the
  key that is the string \<open>s\<close> itself and for a tuple of two or more items whose second
  item is the string \<open>s\<close>; every other key raises the \<^verbatim>\<open>TypeError\<close> of the source. The
  sequence must be a tuple: other ordered sequences, lists among them, are refused.
\<close>

theorem parse_key_string_or_tuple:
  "(parse_key key = Inr s) =
     (key = PStr s \<or> (\<exists>xs. key = PTuple xs \<and> 2 \<le> length xs \<and> xs ! 1 = PStr s))
   \<and> ((\<exists>s'. parse_key key = Inr s') \<or> parse_key key = Inl (TypeError key_type_message))"
proof -
  have shape: "(parse_key key = Inr s) =
     (key = PStr s \<or> (\<exists>xs. key = PTuple xs \<and> 2 \<le> length xs \<and> xs ! 1 = PStr s))"
  proof (cases key)
    case (PTuple xs)
    show ?thesis
    proof (cases "2 \<le> length xs")
      case True
      then show ?thesis
        using PTuple by (cases "xs ! 1") (simp_all add: parse_key_def)
    next
      case False
      then show ?thesis
        using PTuple by (simp add: parse_key_def)
    qed
  qed (auto simp: parse_key_def)
  have total: "(\<exists>s'. parse_key key = Inr s') \<or> parse_key key = Inl (TypeError key_type_message)"
    by (simp add: parse_key_def Let_def split: pyval.splits)
  from shape total show ?thesis by blast
qed

text \<open>
  The list \<^verbatim>\<open>['w', 'h', 'a', 't']\<close> is an ordered sequence of four items whose second
  item is a string, and \<^verbatim>\<open>_parse_key\<close> raises on it, as
  \<^verbatim>\<open>test_parse_key_from_long_list\<close> expects; the tuple of the same items gives \<^verbatim>\<open>'h'\<close>.
\<close>

theorem parse_key_list_counterexample:
  "parse_key (PList [PStr ''w'', PStr ''h'', PStr ''a'', PStr ''t''])
     = Inl (TypeError key_type_message)
   \<and> parse_key (PTuple [PStr ''w'', PStr ''h'', PStr ''a'', PStr ''t'']) = Inr ''h''"
  by (simp add: parse_key_def)

section \<open>Time normalisation\<close>

text \<open>
  Claim C2. \<^verbatim>\<open>_parse_time\<close> raises its \<^verbatim>\<open>TypeError\<close> exactly on a value that is not a
  number. A number \<open>t\<close> gives the far-future day when \<open>t = 0\<close>, the clock reading plus
  \<open>t\<close> seconds when \<open>0 < t \<le> 2678400\<close>, the epoch time \<open>t\<close> itself when
  \<open>t > 2678400\<close>, and for \<open>t < 0\<close> again the clock reading plus \<open>t\<close>, which lies in the
  past.
\<close>

theorem parse_time_branches:
  "(number_of time = None \<longrightarrow> parse_time now time = Inl (TypeError time_type_message))
   \<and> (\<forall>t. number_of time = Some t \<longrightarrow>
          (t = 0 \<longrightarrow> parse_time now time = Inr datetime_max_day)
        \<and> (0 < t \<and> t \<le> 2678400 \<longrightarrow> parse_time now time = Inr (now + t))
        \<and> (2678400 < t \<longrightarrow> parse_time now time = Inr t)
        \<and> (t < 0 \<longrightarrow> parse_time now time = Inr (now + t) \<and> now + t < now))"
  by (simp add: parse_time_def)

theorem parse_time_branches_witness:
  "parse_time 1500000000 (PStr ''1033523'') = Inl (TypeError time_type_message)
   \<and> parse_time 1500000000 (PInt 0) = Inr datetime_max_day
   \<and> parse_time 1500000000 (PInt 1209600) = Inr 1501209600
   \<and> parse_time 1500000000 (PInt 2764800) = Inr 2764800
   \<and> parse_time 1500000000 (PFloat (-5)) = Inr 1499999995
   \<and> (1499999995::real) < 1500000000"
  using parse_time_branches [of "PStr ''1033523''" 1500000000]
    parse_time_branches [of "PInt 0" 1500000000]
    parse_time_branches [of "PInt 1209600" 1500000000]
    parse_time_branches [of "PInt 2764800" 1500000000]
    parse_time_branches [of "PFloat (-5)" 1500000000]
  by simp

section \<open>Storage keys\<close>

text \<open>
  Claim C3. For a key that parses to the string \<open>k\<close>, the storage key is the namespace
  followed by \<open>k\<close> when that concatenation has at most 250 characters, and otherwise the
  namespace followed by the digest of \<open>k\<close> alone: the namespace is no part of what is
  hashed. The digest is the collaborator's; when it has 64 characters, as a hexadecimal
  sha256 digest has, the storage key of a long key has 64 characters after the namespace.
\<close>

theorem get_key_name_storage_key:
  assumes "parse_key key = Inr k"
  shows "get_key_name E key namespace =
           Inr (if length (namespace_or_empty namespace @ k) \<le> 250
                then namespace_or_empty namespace @ k
                else namespace_or_empty namespace @ hexdigest E k)
       \<and> (250 < length (namespace_or_empty namespace @ k) \<and> length (hexdigest E k) = 64 \<longrightarrow>
            (\<exists>kn. get_key_name E key namespace = Inr kn
                  \<and> length kn = length (namespace_or_empty namespace) + 64))"
  using assms by (simp add: get_key_name_def Let_def)

theorem get_key_name_storage_key_witness:
  "get_key_name example_env (PStr ''whatever'') (Some ''prefix'') = Inr ''prefixwhatever''
   \<and> get_key_name example_env (PTuple [PInt 7, PStr (replicate 300 (CHR ''a''))]) (Some ''prefix'')
       = Inr (''prefix'' @ replicate 64 (CHR ''0''))
   \<and> length (''prefix'' @ replicate 64 (CHR ''0'')) = length ''prefix'' + 64"
proof -
  have short: "parse_key (PStr ''whatever'') = Inr ''whatever''"
    by (simp add: parse_key_def)
  have long: "parse_key (PTuple [PInt 7, PStr (replicate 300 (CHR ''a''))])
                = Inr (replicate 300 (CHR ''a''))"
    by (simp add: parse_key_def)
  show ?thesis
    using get_key_name_storage_key [OF short, of example_env "Some ''prefix''"]
      get_key_name_storage_key [OF long, of example_env "Some ''prefix''"]
    by (simp add: namespace_or_empty_def example_env_def)
qed

section \<open>Lookup in the datastore\<close>

lemma find_append_new:
  "find P xs = None \<Longrightarrow> P n \<Longrightarrow> find P (xs @ [n]) = Some n"
  by (induction xs) (auto split: if_splits)

lemma find_map_overwrite:
  "find P xs = Some old \<Longrightarrow> item_id old = Some i \<Longrightarrow> P n \<Longrightarrow>
   find P (map (\<lambda>e. if item_id e = Some i then n else e) xs) = Some n"
  by (induction xs) (auto split: if_splits)

lemma find_in_set: "find P xs = Some x \<Longrightarrow> x \<in> set xs \<and> P x"
  by (induction xs) (auto split: if_splits)

lemma find_filter_removed:
  assumes "distinct (map cache_key xs)" and "find (\<lambda>e. cache_key e = kn) xs = Some it"
  shows "find (\<lambda>e. cache_key e = kn) (filter (\<lambda>e. item_id e \<noteq> item_id it) xs) = None"
proof -
  have it: "it \<in> set xs" "cache_key it = kn"
    using find_in_set [OF assms(2)] by simp_all
  have "e = it" if "e \<in> set xs" "cache_key e = kn" for e
    using assms(1) it that by (auto simp: distinct_map inj_on_def)
  then show ?thesis
    by (auto simp: find_None_iff)
qed

lemma get_item_absent:
  "get_key_name E key namespace = Inr kn \<Longrightarrow> query_get kn st = None \<Longrightarrow>
   get_item E now key namespace de st = Inr (None, st)"
  by (simp add: get_item_def)

lemma get_item_valid:
  "get_key_name E key namespace = Inr kn \<Longrightarrow> query_get kn st = Some it \<Longrightarrow>
   now \<le> expire_at it \<Longrightarrow> get_item E now key namespace de st = Inr (Some it, st)"
  by (simp add: get_item_def)

lemma get_item_expired_kept:
  "get_key_name E key namespace = Inr kn \<Longrightarrow> query_get kn st = Some it \<Longrightarrow>
   expire_at it < now \<Longrightarrow> get_item E now key namespace False st = Inr (None, st)"
  by (simp add: get_item_def)

lemma get_item_expired_deleted:
  "get_key_name E key namespace = Inr kn \<Longrightarrow> query_get kn st = Some it \<Longrightarrow>
   expire_at it < now \<Longrightarrow> \<not> delete_raises st \<Longrightarrow>
   get_item E now key namespace True st =
     Inr (None, st\<lparr>entities := filter (\<lambda>e. item_id e \<noteq> item_id it) (entities st)\<rparr>)"
  by (simp add: get_item_def item_delete_def)

lemma get_item_expired_raises:
  "get_key_name E key namespace = Inr kn \<Longrightarrow> query_get kn st = Some it \<Longrightarrow>
   expire_at it < now \<Longrightarrow> delete_raises st \<Longrightarrow>
   get_item E now key namespace True st = Inl DatastoreError"
  by (simp add: get_item_def item_delete_def)

lemma wf_store_item_id:
  "wf_store st \<Longrightarrow> it \<in> set (entities st) \<Longrightarrow> \<exists>i. item_id it = Some i"
  by (auto simp: wf_store_def key_below_def list_all_iff split: option.splits)

lemma set_cache_stored:
  assumes wf: "wf_store st"
    and kn: "get_key_name E key namespace = Inr kn"
    and time: "parse_time now time = Inr e"
    and set: "set_cache E now key val time mcl namespace st = Inr (True, st')"
  shows "\<exists>n. query_get kn st' = Some n \<and> expire_at n = e \<and> pickled_value n = dumps E val"
proof (cases "query_get kn st")
  case None
  then have look: "get_item E now key namespace True st = Inr (None, st)"
    using kn by (rule get_item_absent [rotated])
  from set kn time look None show ?thesis
    by (auto simp: set_cache_def Let_def item_put_def new_item_def query_get_def
        find_append_new split: if_splits)
next
  case (Some it)
  then have mem: "it \<in> set (entities st)" and key: "cache_key it = kn"
    using find_in_set [of "\<lambda>e. cache_key e = kn" "entities st" it]
    by (simp_all add: query_get_def)
  from wf_store_item_id [OF wf mem] obtain i where i: "item_id it = Some i" ..
  show ?thesis
  proof (cases "now \<le> expire_at it")
    case True
    have look: "get_item E now key namespace True st = Inr (Some it, st)"
      using kn Some True by (rule get_item_valid)
    have ids: "Some i \<in> item_id ` set (entities st)"
      using mem i by force
    from set kn time look i ids have
      st': "entities st' =
              map (\<lambda>x. if item_id x = Some i then it\<lparr>expire_at := e, pickled_value := dumps E val\<rparr> else x)
                (entities st)"
      by (auto simp: set_cache_def Let_def item_put_def split: if_splits)
    have "find (\<lambda>x. cache_key x = kn) (entities st') =
            Some (it\<lparr>expire_at := e, pickled_value := dumps E val\<rparr>)"
      unfolding st' using Some i key
      by (intro find_map_overwrite) (simp_all add: query_get_def)
    then show ?thesis
      by (simp add: query_get_def)
  next
    case False
    then have expired: "expire_at it < now" by simp
    have ok: "\<not> delete_raises st"
    proof
      assume "delete_raises st"
      with kn Some expired have "get_item E now key namespace True st = Inl DatastoreError"
        by (rule get_item_expired_raises)
      with set kn time show False
        by (simp add: set_cache_def)
    qed
    have look: "get_item E now key namespace True st =
        Inr (None, st\<lparr>entities := filter (\<lambda>x. item_id x \<noteq> item_id it) (entities st)\<rparr>)"
      using kn Some expired ok by (rule get_item_expired_deleted)
    have gone: "find (\<lambda>x. cache_key x = kn)
                  (filter (\<lambda>x. item_id x \<noteq> item_id it) (entities st)) = None"
      using wf Some by (intro find_filter_removed) (simp_all add: wf_store_def query_get_def)
    from set kn time look gone show ?thesis
      by (auto simp: set_cache_def Let_def item_put_def new_item_def query_get_def
          find_append_new split: if_splits)
  qed
qed

lemma set_cache_key_name:
  "set_cache E now key val time mcl namespace st = Inr r \<Longrightarrow>
   \<exists>kn. get_key_name E key namespace = Inr kn"
  by (auto simp: set_cache_def split: sum.splits)

lemma set_cache_then_get:
  assumes wf: "wf_store st"
    and set: "set_cache E now key val time mcl namespace st = Inr (True, st')"
    and time: "parse_time now time = Inr e"
    and live: "now' \<le> e"
  shows "get E now' key namespace de st' = Inr (loads E (dumps E val), st')"
proof -
  from set_cache_key_name [OF set] obtain kn where kn: "get_key_name E key namespace = Inr kn" ..
  from set_cache_stored [OF wf kn time set] obtain n where
    n: "query_get kn st' = Some n" "expire_at n = e" "pickled_value n = dumps E val"
    by blast
  have "get_item E now' key namespace de st' = Inr (Some n, st')"
    using kn n(1) live n(2) by (intro get_item_valid) simp_all
  then show ?thesis
    by (simp add: get_def n(3))
qed

text \<open>
  Claim C1. Let \<open>kn\<close> be the storage key of the key and namespace, and let the
  datastore's query for \<open>kn\<close> return the record \<open>it\<close> or nothing. \<^verbatim>\<open>_get_item\<close>
  returns an entry exactly when the query returns a record that is not expired
  (\<open>expire_at it < now\<close> is expired), and then it returns that record and leaves the
  datastore as it is. When the query returns nothing the lookup reports not-found. When
  the record is expired the lookup reports not-found: with \<open>delete_expired = False\<close> the
  datastore is unchanged, with \<open>delete_expired = True\<close> (and a datastore whose delete
  call does not raise) the record is removed from it.
\<close>

theorem get_item_lookup:
  assumes kn: "get_key_name E key namespace = Inr kn"
  shows "((\<exists>it st1. get_item E now key namespace de st = Inr (Some it, st1)) =
            (\<exists>it. query_get kn st = Some it \<and> \<not> expire_at it < now))
       \<and> (\<forall>it. query_get kn st = Some it \<and> \<not> expire_at it < now \<longrightarrow>
              get_item E now key namespace de st = Inr (Some it, st))
       \<and> (query_get kn st = None \<longrightarrow> get_item E now key namespace de st = Inr (None, st))
       \<and> (\<forall>it. query_get kn st = Some it \<and> expire_at it < now \<longrightarrow>
              get_item E now key namespace False st = Inr (None, st)
            \<and> (\<not> delete_raises st \<longrightarrow>
                  get_item E now key namespace True st =
                    Inr (None, st\<lparr>entities := filter (\<lambda>e. item_id e \<noteq> item_id it) (entities st)\<rparr>)
                  \<and> it \<notin> set (filter (\<lambda>e. item_id e \<noteq> item_id it) (entities st))))"
proof -
  have found: "(\<exists>it st1. get_item E now key namespace de st = Inr (Some it, st1)) =
                 (\<exists>it. query_get kn st = Some it \<and> \<not> expire_at it < now)"
    using kn by (auto simp: get_item_def split: option.splits sum.splits if_splits)
  have valid: "get_item E now key namespace de st = Inr (Some it, st)"
    if "query_get kn st = Some it \<and> \<not> expire_at it < now" for it
    using kn that by (simp add: get_item_valid)
  have absent: "query_get kn st = None \<longrightarrow> get_item E now key namespace de st = Inr (None, st)"
    using kn by (simp add: get_item_absent)
  have expired: "get_item E now key namespace False st = Inr (None, st)
            \<and> (\<not> delete_raises st \<longrightarrow>
                  get_item E now key namespace True st =
                    Inr (None, st\<lparr>entities := filter (\<lambda>e. item_id e \<noteq> item_id it) (entities st)\<rparr>)
                  \<and> it \<notin> set (filter (\<lambda>e. item_id e \<noteq> item_id it) (entities st)))"
    if "query_get kn st = Some it \<and> expire_at it < now" for it
    using kn that by (simp add: get_item_expired_kept get_item_expired_deleted)
  from found valid absent expired show ?thesis by blast
qed

lemma example_queries:
  "query_get ''prefixmykey'' example_store = Some live_item"
  "query_get ''old'' example_store = Some expired_item"
  "query_get ''nokey'' example_store = None"
  by (simp_all add: query_get_def example_store_def live_item_def expired_item_def)

lemma example_key_names:
  "get_key_name example_env (PStr ''mykey'') (Some ''prefix'') = Inr ''prefixmykey''"
  "get_key_name example_env (PStr ''old'') None = Inr ''old''"
  "get_key_name example_env (PStr ''nokey'') None = Inr ''nokey''"
  by (simp_all add: get_key_name_def parse_key_def namespace_or_empty_def)

theorem get_item_lookup_witness:
  "get_item example_env 1500000000 (PStr ''mykey'') (Some ''prefix'') True example_store
     = Inr (Some live_item, example_store)
   \<and> get_item example_env 1500000000 (PStr ''nokey'') None True example_store
     = Inr (None, example_store)
   \<and> get_item example_env 1500000000 (PStr ''old'') None False example_store
     = Inr (None, example_store)
   \<and> get_item example_env 1500000000 (PStr ''old'') None True example_store
     = Inr (None, example_store\<lparr>entities := [live_item]\<rparr>)"
proof -
  have live: "\<not> expire_at live_item < 1500000000" and dead: "expire_at expired_item < 1500000000"
    by (simp_all add: live_item_def expired_item_def datetime_max_day_def)
  have ok: "\<not> delete_raises example_store"
    by (simp add: example_store_def)
  have rest: "filter (\<lambda>e. item_id e \<noteq> item_id expired_item) (entities example_store) = [live_item]"
    by (simp add: example_store_def live_item_def expired_item_def)
  show ?thesis
    using get_item_lookup [OF example_key_names(1), of 1500000000 True example_store]
      get_item_lookup [OF example_key_names(3), of 1500000000 True example_store]
      get_item_lookup [OF example_key_names(2), of 1500000000 True example_store]
      example_queries live dead ok rest
    by simp
qed

section \<open>Round trip of set and get\<close>

text \<open>
  Claim C5. In a well-formed datastore, when \<^verbatim>\<open>set\<close> of a value succeeds with an
  expiration \<open>e\<close> and \<^verbatim>\<open>get\<close> of the same key and namespace follows at a clock reading
  not after \<open>e\<close>, then \<^verbatim>\<open>get\<close> returns that value, provided \<open>loads\<close> inverts \<open>dumps\<close> on
  it. The example stores and reads a string with non-ASCII bytes.
\<close>

theorem set_get_round_trip:
  assumes "wf_store st"
    and "set_cache E now key val time min_compress_len namespace st = Inr (True, st')"
    and "parse_time now time = Inr e"
    and "now' \<le> e"
    and "loads E (dumps E val) = val"
  shows "get E now' key namespace delete_expired st' = Inr (val, st')"
  using set_cache_then_get [OF assms(1-4), of delete_expired] assms(5) by simp

lemma wf_empty_store: "wf_store empty_store"
  by (simp add: wf_store_def empty_store_def)

theorem set_get_round_trip_witness:
  "get example_env 1500000001 (PStr ''mykey'') (Some ''prefix'') True stored_umlaut
     = Inr (umlaut_value, stored_umlaut)"
proof -
  have time: "parse_time 1500000000 (PInt 1) = Inr 1500000001"
    by (simp add: parse_time_def)
  have look: "get_item example_env 1500000000 (PStr ''mykey'') (Some ''prefix'') True empty_store
                = Inr (None, empty_store)"
    by (simp add: get_item_def example_key_names query_get_def empty_store_def)
  have dump: "dumps example_env umlaut_value
                = ''german characters like '' @ [CHR 0xC3, CHR 0xA4, CHR 0xC3, CHR 0x9F]"
    by (simp add: example_env_def umlaut_value_def)
  have set: "set_cache example_env 1500000000 (PStr ''mykey'') umlaut_value (PInt 1) 0
               (Some ''prefix'') empty_store = Inr (True, stored_umlaut)"
  proof -
    have "item_put
            \<lparr>item_id = None, cache_key = ''prefixmykey'',
             pickled_value = ''german characters like '' @ [CHR 0xC3, CHR 0xA4, CHR 0xC3, CHR 0x9F],
             expire_at = 1500000001\<rparr> empty_store = Inr stored_umlaut"
      by (simp add: item_put_def empty_store_def stored_umlaut_def)
    then show ?thesis
      by (simp add: set_cache_def example_key_names time look dump new_item_def)
  qed
  have inv: "loads example_env (dumps example_env umlaut_value) = umlaut_value"
    by (simp add: example_env_def umlaut_value_def)
  show ?thesis
    using set_get_round_trip [OF wf_empty_store set time _ inv, of 1500000001 True] by simp
qed

section \<open>Adding and replacing\<close>

lemma query_get_after_delete:
  "wf_store st \<Longrightarrow> query_get kn st = Some it \<Longrightarrow>
   query_get kn (st\<lparr>entities := filter (\<lambda>e. item_id e \<noteq> item_id it) (entities st)\<rparr>) = None"
  by (simp add: query_get_def wf_store_def find_filter_removed)

lemma set_cache_after_expired:
  assumes wf: "wf_store st"
    and kn: "get_key_name E key namespace = Inr kn"
    and it: "query_get kn st = Some it" "expire_at it < now" "\<not> delete_raises st"
  shows "set_cache E now key val time mcl namespace
           (st\<lparr>entities := filter (\<lambda>e. item_id e \<noteq> item_id it) (entities st)\<rparr>)
         = set_cache E now key val time mcl namespace st"
proof -
  let ?st1 = "st\<lparr>entities := filter (\<lambda>e. item_id e \<noteq> item_id it) (entities st)\<rparr>"
  have "get_item E now key namespace True st = Inr (None, ?st1)"
    using kn it by (rule get_item_expired_deleted)
  moreover have "get_item E now key namespace True ?st1 = Inr (None, ?st1)"
    using kn query_get_after_delete [OF wf it(1)] by (rule get_item_absent)
  ultimately show ?thesis
    by (simp add: set_cache_def kn split: sum.splits)
qed

lemma wf_example_store: "wf_store example_store"
  by (simp add: wf_store_def key_below_def example_store_def live_item_def expired_item_def)

lemma example_expirations:
  "(1500000000::real) \<le> expire_at live_item" "expire_at expired_item < 1500000000"
  by (simp_all add: live_item_def expired_item_def datetime_max_day_def)

lemma example_rest:
  "filter (\<lambda>e. item_id e \<noteq> item_id expired_item) (entities example_store) = [live_item]"
  "filter (\<lambda>e. item_id e \<noteq> item_id live_item) (entities example_store) = [expired_item]"
  by (simp_all add: example_store_def live_item_def expired_item_def)

lemma example_set_cache_new:
  "set_cache example_env 1500000000 (PStr ''nokey'') (PStr ''v2'') (PInt 0) 0 None example_store
     = Inr (True, example_store
         \<lparr>entities := [live_item, expired_item,
            \<lparr>item_id = Some 2, cache_key = ''nokey'', pickled_value = ''v2'',
             expire_at = datetime_max_day\<rparr>],
          next_id := 3\<rparr>)"
proof -
  have look: "get_item example_env 1500000000 (PStr ''nokey'') None True example_store
                = Inr (None, example_store)"
    using example_key_names(3) example_queries(3) by (rule get_item_absent)
  have time: "parse_time 1500000000 (PInt 0) = Inr datetime_max_day"
    by (simp add: parse_time_def)
  have dump: "dumps example_env (PStr ''v2'') = ''v2''"
    by (simp add: example_env_def)
  have "item_put
          \<lparr>item_id = None, cache_key = ''nokey'', pickled_value = ''v2'',
           expire_at = datetime_max_day\<rparr> example_store
        = Inr (example_store
         \<lparr>entities := [live_item, expired_item,
            \<lparr>item_id = Some 2, cache_key = ''nokey'', pickled_value = ''v2'',
             expire_at = datetime_max_day\<rparr>],
          next_id := 3\<rparr>)"
    by (simp add: item_put_def example_store_def)
  then show ?thesis
    by (simp add: set_cache_def example_key_names time look dump new_item_def)
qed

lemma example_set_cache_overwrite:
  "set_cache example_env 1500000000 (PStr ''mykey'') (PStr ''v2'') (PInt 60) 0 (Some ''prefix'')
     example_store
     = Inr (True, example_store
         \<lparr>entities := [live_item\<lparr>expire_at := 1500000060, pickled_value := ''v2''\<rparr>,
                       expired_item]\<rparr>)"
proof -
  have look: "get_item example_env 1500000000 (PStr ''mykey'') (Some ''prefix'') True example_store
                = Inr (Some live_item, example_store)"
    using example_key_names(1) example_queries(1) example_expirations(1) by (rule get_item_valid)
  have time: "parse_time 1500000000 (PInt 60) = Inr 1500000060"
    by (simp add: parse_time_def)
  have dump: "dumps example_env (PStr ''v2'') = ''v2''"
    by (simp add: example_env_def)
  have "item_put (live_item\<lparr>expire_at := 1500000060, pickled_value := ''v2''\<rparr>) example_store
        = Inr (example_store
         \<lparr>entities := [live_item\<lparr>expire_at := 1500000060, pickled_value := ''v2''\<rparr>,
                       expired_item]\<rparr>)"
    by (simp add: item_put_def example_store_def live_item_def expired_item_def)
  then show ?thesis
    by (simp add: set_cache_def example_key_names time look dump)
qed

text \<open>
  Claim C6. In a well-formed datastore, with \<open>kn\<close> the storage key: when the query for
  \<open>kn\<close> returns a record that is not expired, \<^verbatim>\<open>add\<close> returns \<^verbatim>\<open>False\<close> and leaves the
  datastore exactly as it was, so that a \<^verbatim>\<open>get\<close> before the record expires still yields
  the record's payload. When there is no record, or an expired one (which the lookup
  deletes), \<^verbatim>\<open>add\<close> is \<^verbatim>\<open>set\<close>. So \<^verbatim>\<open>add\<close> returns \<^verbatim>\<open>True\<close> only when no valid entry
  existed.
\<close>

theorem add_only_without_valid_entry:
  assumes wf: "wf_store st"
    and kn: "get_key_name E key namespace = Inr kn"
  shows "(\<forall>it. query_get kn st = Some it \<and> now \<le> expire_at it \<longrightarrow>
            add E now key val time min_compress_len namespace st = Inr (False, st)
          \<and> (\<forall>now' de. now' \<le> expire_at it \<longrightarrow>
                get E now' key namespace de st = Inr (loads E (pickled_value it), st)))
       \<and> (query_get kn st = None
            \<or> (\<exists>it. query_get kn st = Some it \<and> expire_at it < now \<and> \<not> delete_raises st) \<longrightarrow>
            add E now key val time min_compress_len namespace st
              = set_cache E now key val time min_compress_len namespace st)
       \<and> ((\<exists>st'. add E now key val time min_compress_len namespace st = Inr (True, st')) \<longrightarrow>
            query_get kn st = None \<or> (\<exists>it. query_get kn st = Some it \<and> expire_at it < now))"
proof -
  have valid: "add E now key val time min_compress_len namespace st = Inr (False, st)
          \<and> (\<forall>now' de. now' \<le> expire_at it \<longrightarrow>
                get E now' key namespace de st = Inr (loads E (pickled_value it), st))"
    if "query_get kn st = Some it \<and> now \<le> expire_at it" for it
    using kn that by (simp add: add_def get_def get_item_valid)
  have absent: "add E now key val time min_compress_len namespace st
                  = set_cache E now key val time min_compress_len namespace st"
    if "query_get kn st = None"
    using kn that by (simp add: add_def get_item_absent)
  have expired: "add E now key val time min_compress_len namespace st
                  = set_cache E now key val time min_compress_len namespace st"
    if "query_get kn st = Some it" "expire_at it < now" "\<not> delete_raises st" for it
    using kn that set_cache_after_expired [OF wf kn that]
    by (simp add: add_def get_item_expired_deleted)
  have only: "query_get kn st = None \<or> (\<exists>it. query_get kn st = Some it \<and> expire_at it < now)"
    if "add E now key val time min_compress_len namespace st = Inr (True, st')" for st'
  proof (cases "query_get kn st")
    case None
    then show ?thesis by simp
  next
    case (Some it)
    with valid [of it] that show ?thesis
      by (cases "now \<le> expire_at it") auto
  qed
  from valid absent expired only show ?thesis by blast
qed

theorem add_only_without_valid_entry_witness:
  "add example_env 1500000000 (PStr ''mykey'') (PStr ''v2'') (PInt 0) 0 (Some ''prefix'')
     example_store = Inr (False, example_store)
   \<and> get example_env 1500000007 (PStr ''mykey'') (Some ''prefix'') True example_store
       = Inr (PStr ''v0'', example_store)
   \<and> add example_env 1500000000 (PStr ''nokey'') (PStr ''v2'') (PInt 0) 0 None example_store
       = Inr (True, example_store
           \<lparr>entities := [live_item, expired_item,
              \<lparr>item_id = Some 2, cache_key = ''nokey'', pickled_value = ''v2'',
               expire_at = datetime_max_day\<rparr>],
            next_id := 3\<rparr>)"
proof -
  note present =
    add_only_without_valid_entry [OF wf_example_store example_key_names(1),
      of 1500000000 "PStr ''v2''" "PInt 0" 0]
  note absent =
    add_only_without_valid_entry [OF wf_example_store example_key_names(3),
      of 1500000000 "PStr ''v2''" "PInt 0" 0]
  have later: "(1500000007::real) \<le> expire_at live_item"
    by (simp add: live_item_def datetime_max_day_def)
  have payload: "loads example_env (pickled_value live_item) = PStr ''v0''"
    by (simp add: example_env_def live_item_def)
  from present example_queries(1) example_expirations(1) have
    "add example_env 1500000000 (PStr ''mykey'') (PStr ''v2'') (PInt 0) 0 (Some ''prefix'')
       example_store = Inr (False, example_store)"
    and "\<forall>now' de. now' \<le> expire_at live_item \<longrightarrow>
           get example_env now' (PStr ''mykey'') (Some ''prefix'') de example_store
             = Inr (loads example_env (pickled_value live_item), example_store)"
    by blast+
  moreover from absent example_queries(3) have
    "add example_env 1500000000 (PStr ''nokey'') (PStr ''v2'') (PInt 0) 0 None example_store
       = set_cache example_env 1500000000 (PStr ''nokey'') (PStr ''v2'') (PInt 0) 0 None
           example_store"
    by blast
  ultimately show ?thesis
    using later payload example_set_cache_new by simp
qed

text \<open>
  Claim C7. In a well-formed datastore, with \<open>kn\<close> the storage key: when the query for
  \<open>kn\<close> returns a record that is not expired, \<^verbatim>\<open>replace\<close> is \<^verbatim>\<open>set\<close>. When there is no
  record \<^verbatim>\<open>replace\<close> returns \<^verbatim>\<open>False\<close> and the datastore is unchanged; when the record
  is expired it returns \<^verbatim>\<open>False\<close> and the datastore only loses that record: nothing is
  created. When \<^verbatim>\<open>replace\<close> returns \<^verbatim>\<open>True\<close>, a \<^verbatim>\<open>get\<close> that follows before the new
  expiration yields the new value (for a value that \<open>loads\<close> restores).
\<close>

theorem replace_only_with_valid_entry:
  assumes wf: "wf_store st"
    and kn: "get_key_name E key namespace = Inr kn"
  shows "(\<forall>it. query_get kn st = Some it \<and> now \<le> expire_at it \<longrightarrow>
            replace E now key val time min_compress_len namespace st
              = set_cache E now key val time min_compress_len namespace st)
       \<and> (query_get kn st = None \<longrightarrow>
            replace E now key val time min_compress_len namespace st = Inr (False, st))
       \<and> (\<forall>it. query_get kn st = Some it \<and> expire_at it < now \<and> \<not> delete_raises st \<longrightarrow>
            replace E now key val time min_compress_len namespace st
              = Inr (False, st\<lparr>entities := filter (\<lambda>e. item_id e \<noteq> item_id it) (entities st)\<rparr>))
       \<and> (\<forall>st' e now' de.
            replace E now key val time min_compress_len namespace st = Inr (True, st')
            \<and> parse_time now time = Inr e \<and> now' \<le> e \<and> loads E (dumps E val) = val \<longrightarrow>
            get E now' key namespace de st' = Inr (val, st'))"
proof -
  have valid: "replace E now key val time min_compress_len namespace st
              = set_cache E now key val time min_compress_len namespace st"
    if "query_get kn st = Some it \<and> now \<le> expire_at it" for it
    using kn that by (simp add: replace_def get_item_valid)
  have absent: "query_get kn st = None \<longrightarrow>
            replace E now key val time min_compress_len namespace st = Inr (False, st)"
    using kn by (simp add: replace_def get_item_absent)
  have expired: "replace E now key val time min_compress_len namespace st
              = Inr (False, st\<lparr>entities := filter (\<lambda>e. item_id e \<noteq> item_id it) (entities st)\<rparr>)"
    if "query_get kn st = Some it \<and> expire_at it < now \<and> \<not> delete_raises st" for it
    using kn that by (simp add: replace_def get_item_expired_deleted)
  have after: "get E now' key namespace de st' = Inr (val, st')"
    if "replace E now key val time min_compress_len namespace st = Inr (True, st')
        \<and> parse_time now time = Inr e \<and> now' \<le> e \<and> loads E (dumps E val) = val"
    for st' e now' de
  proof -
    from that obtain old st1 where
      look: "get_item E now key namespace True st = Inr (Some old, st1)"
      by (auto simp: replace_def split: sum.splits option.splits)
    then have "st1 = st"
      using kn by (auto simp: get_item_def split: option.splits if_splits sum.splits)
    with look that have "set_cache E now key val time min_compress_len namespace st = Inr (True, st')"
      by (simp add: replace_def)
    from set_cache_then_get [OF wf this, of e now' de] that show ?thesis
      by simp
  qed
  from valid absent expired after show ?thesis by blast
qed

theorem replace_only_with_valid_entry_witness:
  "replace example_env 1500000000 (PStr ''mykey'') (PStr ''v2'') (PInt 60) 0 (Some ''prefix'')
     example_store
     = Inr (True, example_store
         \<lparr>entities := [live_item\<lparr>expire_at := 1500000060, pickled_value := ''v2''\<rparr>,
                       expired_item]\<rparr>)
   \<and> get example_env 1500000005 (PStr ''mykey'') (Some ''prefix'') True
       (example_store
         \<lparr>entities := [live_item\<lparr>expire_at := 1500000060, pickled_value := ''v2''\<rparr>,
                       expired_item]\<rparr>)
       = Inr (PStr ''v2'', example_store
         \<lparr>entities := [live_item\<lparr>expire_at := 1500000060, pickled_value := ''v2''\<rparr>,
                       expired_item]\<rparr>)
   \<and> replace example_env 1500000000 (PStr ''nokey'') (PStr ''v2'') (PInt 60) 0 None example_store
       = Inr (False, example_store)
   \<and> replace example_env 1500000000 (PStr ''old'') (PStr ''v2'') (PInt 60) 0 None example_store
       = Inr (False, example_store\<lparr>entities := [live_item]\<rparr>)"
proof -
  note present =
    replace_only_with_valid_entry [OF wf_example_store example_key_names(1),
      of 1500000000 "PStr ''v2''" "PInt 60" 0]
  note absent =
    replace_only_with_valid_entry [OF wf_example_store example_key_names(3),
      of 1500000000 "PStr ''v2''" "PInt 60" 0]
  note expired =
    replace_only_with_valid_entry [OF wf_example_store example_key_names(2),
      of 1500000000 "PStr ''v2''" "PInt 60" 0]
  have time: "parse_time 1500000000 (PInt 60) = Inr 1500000060"
    by (simp add: parse_time_def)
  have inv: "loads example_env (dumps example_env (PStr ''v2'')) = PStr ''v2''"
    by (simp add: example_env_def)
  have ok: "\<not> delete_raises example_store"
    by (simp add: example_store_def)
  from present example_queries(1) example_expirations(1) have replaced:
    "replace example_env 1500000000 (PStr ''mykey'') (PStr ''v2'') (PInt 60) 0 (Some ''prefix'')
       example_store
     = Inr (True, example_store
         \<lparr>entities := [live_item\<lparr>expire_at := 1500000060, pickled_value := ''v2''\<rparr>,
                       expired_item]\<rparr>)"
    using example_set_cache_overwrite by simp
  from present have after:
    "replace example_env 1500000000 (PStr ''mykey'') (PStr ''v2'') (PInt 60) 0 (Some ''prefix'')
       example_store = Inr (True, st')
     \<and> parse_time 1500000000 (PInt 60) = Inr e \<and> now' \<le> e
     \<and> loads example_env (dumps example_env (PStr ''v2'')) = PStr ''v2'' \<longrightarrow>
     get example_env now' (PStr ''mykey'') (Some ''prefix'') de st' = Inr (PStr ''v2'', st')"
    for st' e now' de
    by blast
  from after [of _ 1500000060 1500000005 True] replaced time inv have read:
    "get example_env 1500000005 (PStr ''mykey'') (Some ''prefix'') True
       (example_store
         \<lparr>entities := [live_item\<lparr>expire_at := 1500000060, pickled_value := ''v2''\<rparr>,
                       expired_item]\<rparr>)
       = Inr (PStr ''v2'', example_store
         \<lparr>entities := [live_item\<lparr>expire_at := 1500000060, pickled_value := ''v2''\<rparr>,
                       expired_item]\<rparr>)"
    by simp
  from absent example_queries(3) have missing:
    "replace example_env 1500000000 (PStr ''nokey'') (PStr ''v2'') (PInt 60) 0 None example_store
       = Inr (False, example_store)"
    by blast
  from expired example_queries(2) example_expirations(2) ok have stale:
    "replace example_env 1500000000 (PStr ''old'') (PStr ''v2'') (PInt 60) 0 None example_store
       = Inr (False, example_store
           \<lparr>entities := filter (\<lambda>e. item_id e \<noteq> item_id expired_item) (entities example_store)\<rparr>)"
    by blast
  from replaced read missing stale show ?thesis
    by (simp add: example_rest)
qed

section \<open>Deleting\<close>

text \<open>
  Claim C8. With \<open>kn\<close> the storage key, \<^verbatim>\<open>delete\<close> returns 1 (item missing) when the
  query for \<open>kn\<close> returns no record, and when it returns an expired record, which the
  lookup removes (in a datastore whose delete call does not raise). When the query returns
  a record that is not expired, \<^verbatim>\<open>delete\<close> returns 0 (network failure) if the delete call
  raises, leaving the datastore as it was, and 2 (successful) otherwise, with the record
  removed. The argument \<^verbatim>\<open>seconds\<close> changes nothing.
\<close>

theorem delete_result_codes:
  assumes kn: "get_key_name E key namespace = Inr kn"
  shows "(query_get kn st = None \<longrightarrow> delete E now key seconds namespace st = Inr (1, st))
       \<and> (\<forall>it. query_get kn st = Some it \<and> expire_at it < now \<and> \<not> delete_raises st \<longrightarrow>
            delete E now key seconds namespace st
              = Inr (1, st\<lparr>entities := filter (\<lambda>e. item_id e \<noteq> item_id it) (entities st)\<rparr>))
       \<and> (\<forall>it. query_get kn st = Some it \<and> now \<le> expire_at it \<longrightarrow>
            (delete_raises st \<longrightarrow> delete E now key seconds namespace st = Inr (0, st))
          \<and> (\<not> delete_raises st \<longrightarrow>
               delete E now key seconds namespace st
                 = Inr (2, st\<lparr>entities := filter (\<lambda>e. item_id e \<noteq> item_id it) (entities st)\<rparr>)
               \<and> it \<notin> set (filter (\<lambda>e. item_id e \<noteq> item_id it) (entities st))))
       \<and> delete E now key seconds namespace st = delete E now key seconds' namespace st"
proof -
  have absent: "query_get kn st = None \<longrightarrow> delete E now key seconds namespace st = Inr (1, st)"
    using kn by (simp add: delete_def get_item_absent)
  have expired: "delete E now key seconds namespace st
              = Inr (1, st\<lparr>entities := filter (\<lambda>e. item_id e \<noteq> item_id it) (entities st)\<rparr>)"
    if "query_get kn st = Some it \<and> expire_at it < now \<and> \<not> delete_raises st" for it
    using kn that by (simp add: delete_def get_item_expired_deleted)
  have valid: "(delete_raises st \<longrightarrow> delete E now key seconds namespace st = Inr (0, st))
          \<and> (\<not> delete_raises st \<longrightarrow>
               delete E now key seconds namespace st
                 = Inr (2, st\<lparr>entities := filter (\<lambda>e. item_id e \<noteq> item_id it) (entities st)\<rparr>)
               \<and> it \<notin> set (filter (\<lambda>e. item_id e \<noteq> item_id it) (entities st)))"
    if "query_get kn st = Some it \<and> now \<le> expire_at it" for it
    using kn that by (simp add: delete_def get_item_valid item_delete_def)
  have ignored: "delete E now key seconds namespace st = delete E now key seconds' namespace st"
    by (simp add: delete_def)
  from absent expired valid ignored show ?thesis by blast
qed

theorem delete_result_codes_witness:
  "delete example_env 1500000000 (PStr ''nokey'') 0 None example_store = Inr (1, example_store)
   \<and> delete example_env 1500000000 (PStr ''old'') 0 None example_store
       = Inr (1, example_store\<lparr>entities := [live_item]\<rparr>)
   \<and> delete example_env 1500000000 (PStr ''mykey'') 0 (Some ''prefix'') example_store
       = Inr (2, example_store\<lparr>entities := [expired_item]\<rparr>)
   \<and> delete example_env 1500000000 (PStr ''mykey'') 0 (Some ''prefix'')
         (example_store\<lparr>delete_raises := True\<rparr>)
       = Inr (0, example_store\<lparr>delete_raises := True\<rparr>)
   \<and> delete example_env 1500000000 (PStr ''mykey'') 3600 (Some ''prefix'') example_store
       = delete example_env 1500000000 (PStr ''mykey'') 0 (Some ''prefix'') example_store"
proof -
  have ok: "\<not> delete_raises example_store"
    by (simp add: example_store_def)
  have down: "delete_raises (example_store\<lparr>delete_raises := True\<rparr>)"
    by simp
  have same: "query_get ''prefixmykey'' (example_store\<lparr>delete_raises := True\<rparr>) = Some live_item"
    using example_queries(1) by (simp add: query_get_def)
  from delete_result_codes [OF example_key_names(3), of example_store 1500000000 0]
    example_queries(3)
  have missing: "delete example_env 1500000000 (PStr ''nokey'') 0 None example_store
                   = Inr (1, example_store)"
    by blast
  from delete_result_codes [OF example_key_names(2), of example_store 1500000000 0]
    example_queries(2) example_expirations(2) ok
  have stale: "delete example_env 1500000000 (PStr ''old'') 0 None example_store
      = Inr (1, example_store
          \<lparr>entities := filter (\<lambda>e. item_id e \<noteq> item_id expired_item) (entities example_store)\<rparr>)"
    by blast
  from delete_result_codes [OF example_key_names(1), of example_store 1500000000 0]
    example_queries(1) example_expirations(1) ok
  have deleted: "delete example_env 1500000000 (PStr ''mykey'') 0 (Some ''prefix'') example_store
      = Inr (2, example_store
          \<lparr>entities := filter (\<lambda>e. item_id e \<noteq> item_id live_item) (entities example_store)\<rparr>)"
    by blast
  from delete_result_codes [OF example_key_names(1),
      of "example_store\<lparr>delete_raises := True\<rparr>" 1500000000 0]
    same example_expirations(1) down
  have failed: "delete example_env 1500000000 (PStr ''mykey'') 0 (Some ''prefix'')
         (example_store\<lparr>delete_raises := True\<rparr>)
       = Inr (0, example_store\<lparr>delete_raises := True\<rparr>)"
    by blast
  from delete_result_codes [OF example_key_names(1), of example_store 1500000000 3600 0]
  have ignored: "delete example_env 1500000000 (PStr ''mykey'') 3600 (Some ''prefix'') example_store
       = delete example_env 1500000000 (PStr ''mykey'') 0 (Some ''prefix'') example_store"
    by blast
  from missing stale deleted failed ignored show ?thesis
    by (simp add: example_rest)
qed

section \<open>Flushing\<close>

lemma filter_taken_is_drop:
  "distinct (map f xs) \<Longrightarrow> filter (\<lambda>e. f e \<notin> set (map f (take n xs))) xs = drop n xs"
proof (induction xs arbitrary: n)
  case Nil
  then show ?case by simp
next
  case (Cons x xs)
  show ?case
  proof (cases n)
    case 0
    then show ?thesis by simp
  next
    case (Suc m)
    have other: "f e \<noteq> f x" if "e \<in> set xs" for e
      using Cons.prems that by (auto simp: image_iff)
    have "filter (\<lambda>e. f e \<notin> set (map f (take n (x # xs)))) xs
            = filter (\<lambda>e. f e \<notin> set (map f (take m xs))) xs"
      using Suc other by (intro filter_cong) simp_all
    with Cons Suc show ?thesis by simp
  qed
qed

text \<open>
  Claim C9. \<^verbatim>\<open>flush_all\<close> raises, and raises its \<^verbatim>\<open>ValueError\<close>, exactly when
  \<open>max_items\<close> is below 1 or above 1000. Otherwise it returns \<^verbatim>\<open>False\<close> with the datastore
  untouched when the bulk delete raises; when it does not raise, the first \<open>max_items\<close>
  entities are deleted and the result is \<^verbatim>\<open>True\<close> exactly when no entity is left. In a
  well-formed datastore the entities left are those after the first \<open>max_items\<close>, so the
  result is \<^verbatim>\<open>True\<close> exactly when there were at most \<open>max_items\<close> of them.
\<close>

theorem flush_all_result:
  "((\<exists>e. flush_all max_items st = Inl e) = (max_items < 1 \<or> 1000 < max_items))
   \<and> (max_items < 1 \<or> 1000 < max_items \<longrightarrow>
        flush_all max_items st = Inl (ValueError max_items_message))
   \<and> (1 \<le> max_items \<and> max_items \<le> 1000 \<longrightarrow>
        (db_delete_raises st \<longrightarrow> flush_all max_items st = Inr (False, st))
      \<and> (\<not> db_delete_raises st \<longrightarrow>
           (let left = filter (\<lambda>e. item_id e \<notin> set (map item_id (take (nat max_items) (entities st))))
                         (entities st)
            in flush_all max_items st = Inr (left = [], st\<lparr>entities := left\<rparr>))
         \<and> (wf_store st \<longrightarrow>
               flush_all max_items st =
                 Inr (length (entities st) \<le> nat max_items,
                      st\<lparr>entities := drop (nat max_items) (entities st)\<rparr>))))"
proof -
  have raises: "(\<exists>e. flush_all max_items st = Inl e) = (max_items < 1 \<or> 1000 < max_items)"
    by (auto simp: flush_all_def split: sum.splits)
  have error: "max_items < 1 \<or> 1000 < max_items \<longrightarrow>
        flush_all max_items st = Inl (ValueError max_items_message)"
    by (auto simp: flush_all_def)
  have failed: "db_delete_raises st \<longrightarrow> flush_all max_items st = Inr (False, st)"
    if "1 \<le> max_items \<and> max_items \<le> 1000"
    using that by (simp add: flush_all_def db_delete_def)
  have flushed: "let left = filter (\<lambda>e. item_id e \<notin> set (map item_id (take (nat max_items) (entities st))))
                         (entities st)
            in flush_all max_items st = Inr (left = [], st\<lparr>entities := left\<rparr>)"
    if "1 \<le> max_items \<and> max_items \<le> 1000" "\<not> db_delete_raises st"
    using that by (simp add: flush_all_def db_delete_def fetch_def Let_def)
  have dropped: "flush_all max_items st =
                 Inr (length (entities st) \<le> nat max_items,
                      st\<lparr>entities := drop (nat max_items) (entities st)\<rparr>)"
    if "1 \<le> max_items \<and> max_items \<le> 1000" "\<not> db_delete_raises st" "wf_store st"
  proof -
    have "filter (\<lambda>e. item_id e \<notin> set (map item_id (take (nat max_items) (entities st))))
            (entities st) = drop (nat max_items) (entities st)"
      using that(3) by (intro filter_taken_is_drop) (simp add: wf_store_def)
    with flushed [OF that(1,2)] show ?thesis
      by (simp add: Let_def)
  qed
  from raises error failed flushed dropped show ?thesis by blast
qed

theorem flush_all_result_witness:
  "flush_all 0 example_store = Inl (ValueError max_items_message)
   \<and> flush_all 1001 example_store = Inl (ValueError max_items_message)
   \<and> flush_all 1000 example_store = Inr (True, example_store\<lparr>entities := []\<rparr>)
   \<and> flush_all 1 example_store = Inr (False, example_store\<lparr>entities := [expired_item]\<rparr>)
   \<and> flush_all 1000 (example_store\<lparr>db_delete_raises := True\<rparr>)
       = Inr (False, example_store\<lparr>db_delete_raises := True\<rparr>)"
proof -
  have ok: "\<not> db_delete_raises example_store"
    by (simp add: example_store_def)
  have two: "entities example_store = [live_item, expired_item]"
    by (simp add: example_store_def)
  from flush_all_result [of 0 example_store]
  have low: "flush_all 0 example_store = Inl (ValueError max_items_message)"
    by simp
  from flush_all_result [of 1001 example_store]
  have high: "flush_all 1001 example_store = Inl (ValueError max_items_message)"
    by simp
  from flush_all_result [of 1000 example_store] ok wf_example_store
  have all: "flush_all 1000 example_store = Inr (True, example_store\<lparr>entities := []\<rparr>)"
    by (simp add: two)
  from flush_all_result [of 1 example_store] ok wf_example_store
  have part: "flush_all 1 example_store = Inr (False, example_store\<lparr>entities := [expired_item]\<rparr>)"
    by (simp add: two)
  from flush_all_result [of 1000 "example_store\<lparr>db_delete_raises := True\<rparr>"]
  have failed: "flush_all 1000 (example_store\<lparr>db_delete_raises := True\<rparr>)
       = Inr (False, example_store\<lparr>db_delete_raises := True\<rparr>)"
    by simp
  from low high all part failed show ?thesis by simp
qed

section \<open>Failure results that change the datastore\<close>

text \<open>
  Claim C10. When the only record the query finds for a key is expired (and the delete
  call of the datastore does not raise), \<^verbatim>\<open>delete\<close> returns 1 (item missing) and
  \<^verbatim>\<open>replace\<close> returns \<^verbatim>\<open>False\<close>, and each leaves a datastore from which that record, which
  was there before, is gone: the lookup removed it.
\<close>

theorem lookup_failure_deletes_expired:
  assumes "get_key_name E key namespace = Inr kn"
    and "query_get kn st = Some it"
    and "expire_at it < now"
    and "\<not> delete_raises st"
  shows "delete E now key seconds namespace st
           = Inr (1, st\<lparr>entities := filter (\<lambda>e. item_id e \<noteq> item_id it) (entities st)\<rparr>)
       \<and> replace E now key val time min_compress_len namespace st
           = Inr (False, st\<lparr>entities := filter (\<lambda>e. item_id e \<noteq> item_id it) (entities st)\<rparr>)
       \<and> it \<in> set (entities st)
       \<and> it \<notin> set (filter (\<lambda>e. item_id e \<noteq> item_id it) (entities st))"
proof -
  have "get_item E now key namespace True st
          = Inr (None, st\<lparr>entities := filter (\<lambda>e. item_id e \<noteq> item_id it) (entities st)\<rparr>)"
    using assms by (rule get_item_expired_deleted)
  moreover have "it \<in> set (entities st)"
    using assms(2) find_in_set [of "\<lambda>e. cache_key e = kn" "entities st" it]
    by (simp add: query_get_def)
  ultimately show ?thesis
    by (simp add: delete_def replace_def)
qed

theorem lookup_failure_deletes_expired_witness:
  "delete example_env 1500000000 (PStr ''old'') 0 None example_store
     = Inr (1, example_store\<lparr>entities := [live_item]\<rparr>)
   \<and> replace example_env 1500000000 (PStr ''old'') (PStr ''v2'') (PInt 0) 0 None example_store
     = Inr (False, example_store\<lparr>entities := [live_item]\<rparr>)
   \<and> expired_item \<in> set (entities example_store)
   \<and> expired_item \<notin> set [live_item]"
proof -
  have ok: "\<not> delete_raises example_store"
    by (simp add: example_store_def)
  show ?thesis
    using lookup_failure_deletes_expired [OF example_key_names(2) example_queries(2)
        example_expirations(2) ok, of 0 "PStr ''v2''" "PInt 0" 0]
    by (simp add: example_rest)
qed

section \<open>The API keeps the datastore well-formed\<close>

text \<open>
  The datastores that the theorems above assume well-formed are the ones the API
  produces: the empty datastore is well-formed (\<open>wf_empty_store\<close>), and every call that
  returns leaves a well-formed datastore well-formed.
\<close>

lemma wf_store_filter:
  "wf_store st \<Longrightarrow> wf_store (st\<lparr>entities := filter P (entities st)\<rparr>)"
  by (simp add: wf_store_def distinct_map_filter list_all_iff)

lemma wf_store_item_delete:
  "wf_store st \<Longrightarrow> item_delete it st = Inr st' \<Longrightarrow> wf_store st'"
  by (auto simp: item_delete_def wf_store_filter split: if_splits)

lemma wf_store_get_item:
  "wf_store st \<Longrightarrow> get_item E now key namespace de st = Inr (r, st') \<Longrightarrow> wf_store st'"
  by (auto simp: get_item_def split: sum.splits option.splits if_splits
      dest: wf_store_item_delete)

lemma wf_store_below:
  "wf_store st \<Longrightarrow> e \<in> set (entities st) \<Longrightarrow> \<exists>i. item_id e = Some i \<and> i < next_id st"
  by (auto simp: wf_store_def key_below_def list_all_iff split: option.splits)

lemma wf_store_put_new:
  assumes wf: "wf_store st"
    and new: "item_id it = None" "query_get (cache_key it) st = None"
    and put: "item_put it st = Inr st'"
  shows "wf_store st'"
proof -
  from put new(1) have st': "st' = st\<lparr>entities := entities st @ [it\<lparr>item_id := Some (next_id st)\<rparr>],
                                         next_id := Suc (next_id st)\<rparr>"
    by (simp add: item_put_def split: if_splits)
  have fresh_key: "cache_key it \<notin> cache_key ` set (entities st)"
    using new(2) by (auto simp: query_get_def find_None_iff)
  have fresh_id: "Some (next_id st) \<notin> item_id ` set (entities st)"
    using wf_store_below [OF wf] by force
  have below: "list_all (key_below (Suc (next_id st))) (entities st)"
    using wf_store_below [OF wf] by (fastforce simp: list_all_iff key_below_def)
  show ?thesis
    unfolding st' using wf fresh_key fresh_id below
    by (simp add: wf_store_def key_below_def)
qed

lemma wf_store_put_overwrite:
  assumes wf: "wf_store st"
    and old: "old \<in> set (entities st)" "item_id it = item_id old" "cache_key it = cache_key old"
    and put: "item_put it st = Inr st'"
  shows "wf_store st'"
proof -
  from wf_store_below [OF wf old(1)] obtain i where i: "item_id old = Some i" "i < next_id st"
    by blast
  have ids: "Some i \<in> set (map item_id (entities st))"
    using old(1) i(1) by force
  from put old(2) i(1) ids have
    st': "st' = st\<lparr>entities := map (\<lambda>e. if item_id e = Some i then it else e) (entities st)\<rparr>"
    by (simp add: item_put_def split: if_splits)
  have same: "e = old" if "e \<in> set (entities st)" "item_id e = Some i" for e
    using wf old(1) i(1) that by (auto simp: wf_store_def distinct_map inj_on_def)
  have keys: "map (cache_key \<circ> (\<lambda>e. if item_id e = Some i then it else e)) (entities st)
                = map cache_key (entities st)"
    using same old(3) by (intro map_cong) auto
  have keep: "map (item_id \<circ> (\<lambda>e. if item_id e = Some i then it else e)) (entities st)
                = map item_id (entities st)"
    using old(2) i(1) by (intro map_cong) auto
  have below: "list_all (key_below (next_id st))
                 (map (\<lambda>e. if item_id e = Some i then it else e) (entities st))"
    using wf_store_below [OF wf] old(2) i by (fastforce simp: list_all_iff key_below_def)
  show ?thesis
    unfolding st' using wf below
    by (simp add: wf_store_def keys keep)
qed

lemma wf_store_set_cache:
  assumes wf: "wf_store st"
    and set: "set_cache E now key val time mcl namespace st = Inr (b, st')"
  shows "wf_store st'"
proof -
  from set obtain kn e old st1 where
    kn: "get_key_name E key namespace = Inr kn"
    and look: "get_item E now key namespace True st = Inr (old, st1)"
    by (auto simp: set_cache_def split: sum.splits)
  have wf1: "wf_store st1"
    using wf look by (rule wf_store_get_item)
  define it0 where "it0 = (case old of Some x \<Rightarrow> x | None \<Rightarrow> new_item kn)"
  from set kn look obtain e where
    put: "item_put (it0\<lparr>expire_at := e, pickled_value := dumps E val\<rparr>) st1 = Inr st'
          \<or> st' = st1"
    by (auto simp: set_cache_def Let_def it0_def split: sum.splits)
  show ?thesis
  proof (cases "st' = st1")
    case True
    with wf1 show ?thesis by simp
  next
    case False
    with put have put: "item_put (it0\<lparr>expire_at := e, pickled_value := dumps E val\<rparr>) st1 = Inr st'"
      by simp
    show ?thesis
    proof (cases old)
      case (Some x)
      with look kn have x: "query_get kn st = Some x" "st1 = st"
        by (auto simp: get_item_def split: option.splits if_splits sum.splits)
      then have "x \<in> set (entities st1)"
        using find_in_set [of "\<lambda>e. cache_key e = kn" "entities st" x] by (simp add: query_get_def)
      then show ?thesis
        using wf1 put Some by (intro wf_store_put_overwrite [OF wf1 _ _ _ put]) (simp_all add: it0_def)
    next
      case None
      have gone: "query_get kn st1 = None"
      proof (cases "query_get kn st")
        case None
        with look kn show ?thesis
          by (simp add: get_item_def)
      next
        case (Some x)
        with look kn \<open>old = None\<close> have "st1 = st\<lparr>entities := filter (\<lambda>e. item_id e \<noteq> item_id x) (entities st)\<rparr>"
          by (auto simp: get_item_def item_delete_def split: if_splits)
        then show ?thesis
          using query_get_after_delete [OF wf Some] by simp
      qed
      show ?thesis
        using None gone by (intro wf_store_put_new [OF wf1 _ _ put]) (simp_all add: it0_def new_item_def)
    qed
  qed
qed

lemma wf_store_get:
  "wf_store st \<Longrightarrow> get E now key namespace de st = Inr (v, st') \<Longrightarrow> wf_store st'"
  by (auto simp: get_def split: sum.splits option.splits dest: wf_store_get_item)

lemma wf_store_delete:
  "wf_store st \<Longrightarrow> delete E now key seconds namespace st = Inr (r, st') \<Longrightarrow> wf_store st'"
  by (auto simp: delete_def split: sum.splits option.splits)
    (blast intro: wf_store_get_item wf_store_item_delete)+

lemma wf_store_add:
  "wf_store st \<Longrightarrow> add E now key val time mcl namespace st = Inr (b, st') \<Longrightarrow> wf_store st'"
  by (auto simp: add_def split: sum.splits option.splits)
    (blast intro: wf_store_get_item wf_store_set_cache)+

lemma wf_store_replace:
  "wf_store st \<Longrightarrow> replace E now key val time mcl namespace st = Inr (b, st') \<Longrightarrow> wf_store st'"
  by (auto simp: replace_def split: sum.splits option.splits)
    (blast intro: wf_store_get_item wf_store_set_cache)+

lemma wf_store_flush_all:
  "wf_store st \<Longrightarrow> flush_all max_items st = Inr (b, st') \<Longrightarrow> wf_store st'"
  by (auto simp: flush_all_def db_delete_def wf_store_filter split: sum.splits if_splits)

end
